theory Spec2Isabelle
  imports Main
begin

section \<open>The task scheduler of src/scheduler/task_scheduler.py\<close>

text \<open>
  The class \<open>TaskScheduler\<close> keeps its tasks in two SQLite tables (\<open>tasks\<close>,
  \<open>task_logs\<close>), its recurring triggers in an APScheduler job store and the registered
  bodies in the dictionary \<open>task_functions\<close>. The model passes this state explicitly.
  Every method of the class opens its own connection and commits once, so a method is
  one step on the state. Clock readings (\<open>datetime.now(...).isoformat()\<close>) are
  arguments of the operations. Strings are ASCII. Ids and counters are Python integers,
  taken within the 64 bits of an SQLite INTEGER.
\<close>

subsection \<open>Rows, jobs and the scheduler state\<close>

type_synonym timestamp = string

text \<open>A row of the table \<open>tasks\<close>; \<open>row_id\<close> is the column \<open>id\<close>.\<close>

record task =
  row_id :: int
  task_type :: string
  priority :: string
  schedule :: "string option"
  retry_count :: int
  max_retries :: int
  status :: string
  last_run_at :: "timestamp option"
  next_run_at :: "timestamp option"
  created_at :: timestamp
  updated_at :: timestamp

text \<open>A row of the table \<open>task_logs\<close>.\<close>

record task_log =
  log_id :: int
  log_task_id :: int
  log_status :: string
  started_at :: timestamp
  completed_at :: "timestamp option"
  error_message :: "string option"

text \<open>
  The triggers that \<open>_parse_schedule\<close> builds. Whether the library accepts the
  arguments (its constructors raise otherwise) is not decided by this repository:
  the two acceptance tests are parameters of the model.
\<close>

datatype trigger =
  CronTrigger string string string string string
| IntervalTrigger int

record triggers =
  cron_accepts :: "string \<Rightarrow> string \<Rightarrow> string \<Rightarrow> string \<Rightarrow> string \<Rightarrow> bool"
  interval_accepts :: "int \<Rightarrow> bool"

text \<open>
  A job of the job store. The source names it \<open>f"task_{task_id}"\<close>; the model keeps
  the task id that this string renders. \<open>job_args\<close> are the arguments the engine
  passes to \<open>_execute_task\<close> at each firing.
\<close>

record job =
  job_id :: int
  job_trigger :: trigger
  job_args :: "int \<times> string"

text \<open>
  \<open>task_functions\<close> holds the keys of the dictionary of registered bodies. A body is
  an opaque callable: what one call of it does is an argument of \<open>execute_task\<close>.
\<close>

record scheduler =
  tasks :: "task list"
  task_logs :: "task_log list"
  jobs :: "job list"
  task_functions :: "string set"

datatype outcome = Returned | Raised string

datatype error =
  ValueError string
| TypeError
| JobLookupError int
| ConflictingIdError int

definition TASK_PRIORITIES :: "string list" where
  "TASK_PRIORITIES = [''low'', ''normal'', ''high'', ''critical'']"

definition TASK_STATUSES :: "string list" where
  "TASK_STATUSES = [''pending'', ''running'', ''completed'', ''failed'', ''cancelled'']"

text \<open>The state after \<open>__init__\<close> on a new database file.\<close>

definition init_scheduler :: scheduler where
  "init_scheduler = \<lparr>tasks = [], task_logs = [], jobs = [], task_functions = {}\<rparr>"

subsection \<open>The SQL statements\<close>

text \<open>
  \<open>INTEGER PRIMARY KEY AUTOINCREMENT\<close>: the new id is one more than the largest id
  of the table (no row is ever deleted), and 1 on an empty table.
\<close>

definition next_rowid :: "int list \<Rightarrow> int" where
  "next_rowid ids = fold max ids 0 + 1"

text \<open>\<open>SELECT ... WHERE id=?\<close> followed by \<open>fetchone()\<close>.\<close>

definition select_task :: "int \<Rightarrow> task list \<Rightarrow> task option" where
  "select_task task_id rows = find (\<lambda>r. row_id r = task_id) rows"

text \<open>\<open>UPDATE tasks SET ... WHERE id=?\<close>, with the assignment as a function on the row.\<close>

definition update_task :: "int \<Rightarrow> (task \<Rightarrow> task) \<Rightarrow> task list \<Rightarrow> task list" where
  "update_task task_id f rows = map (\<lambda>r. if row_id r = task_id then f r else r) rows"

subsection \<open>The schedule parser\<close>

text \<open>\<open>str.split()\<close> without arguments: the maximal runs of non-whitespace characters.\<close>

definition is_space :: "char \<Rightarrow> bool" where
  "is_space c \<longleftrightarrow> (of_char c :: nat) \<in> {9, 10, 11, 12, 13, 28, 29, 30, 31, 32}"

fun split_from :: "string \<Rightarrow> string \<Rightarrow> string list" where
  "split_from cur [] = (if cur = [] then [] else [rev cur])"
| "split_from cur (c # cs) =
     (if is_space c then (if cur = [] then split_from [] cs else rev cur # split_from [] cs)
      else split_from (c # cur) cs)"

definition split :: "string \<Rightarrow> string list" where
  "split s = split_from [] s"

definition startswith :: "string \<Rightarrow> string \<Rightarrow> bool" where
  "startswith s p \<longleftrightarrow> take (length p) s = p"

text \<open>
  \<open>int(token)\<close> on a token without whitespace: an optional sign, then decimal digits,
  where single underscores may stand between two digits. \<open>None\<close> is the ValueError.
\<close>

definition is_digit :: "char \<Rightarrow> bool" where
  "is_digit c \<longleftrightarrow> 48 \<le> (of_char c :: nat) \<and> (of_char c :: nat) \<le> 57"

definition digit_value :: "char \<Rightarrow> int" where
  "digit_value c = int (of_char c) - 48"

fun py_digits :: "string \<Rightarrow> int \<Rightarrow> int option" where
  "py_digits [] acc = Some acc"
| "py_digits (c # cs) acc =
     (if is_digit c then py_digits cs (10 * acc + digit_value c)
      else if c = CHR ''_'' then
        (case cs of [] \<Rightarrow> None | d # ds \<Rightarrow> if is_digit d then py_digits cs acc else None)
      else None)"

definition py_unsigned :: "string \<Rightarrow> int option" where
  "py_unsigned s =
     (case s of [] \<Rightarrow> None
      | c # cs \<Rightarrow> if is_digit c then py_digits cs (digit_value c) else None)"

definition py_int :: "string \<Rightarrow> int option" where
  "py_int s =
     (case s of [] \<Rightarrow> None
      | c # cs \<Rightarrow>
          if c = CHR ''-'' then map_option uminus (py_unsigned cs)
          else if c = CHR ''+'' then py_unsigned cs
          else py_unsigned s)"

text \<open>
  \<open>_parse_schedule\<close>: five fields go to the cron trigger, whatever they are; otherwise
  a string that starts with \<open>interval \<close> gives an interval trigger from its second
  field (a missing second field is the IndexError that the source catches). Every
  exception is caught and gives \<open>None\<close>.
\<close>

definition parse_schedule :: "triggers \<Rightarrow> string \<Rightarrow> trigger option" where
  "parse_schedule lib sch =
     (let parts = split sch in
      if length parts = 5 then
        (if cron_accepts lib (parts ! 0) (parts ! 1) (parts ! 2) (parts ! 3) (parts ! 4)
         then Some (CronTrigger (parts ! 0) (parts ! 1) (parts ! 2) (parts ! 3) (parts ! 4))
         else None)
      else if startswith sch ''interval '' then
        (case parts of
           _ # p # _ \<Rightarrow>
             (case py_int p of
                None \<Rightarrow> None
              | Some interval \<Rightarrow>
                  if interval_accepts lib interval then Some (IntervalTrigger interval)
                  else None)
         | _ \<Rightarrow> None)
      else None)"

subsection \<open>The job store\<close>

text \<open>
  The two operations of the APScheduler job store that the class calls, at their
  interface: \<open>add_job\<close> refuses an id that the store already holds; \<open>remove_job\<close>
  removes the job of that id and raises when there is none.
\<close>

definition add_job :: "job \<Rightarrow> scheduler \<Rightarrow> (error + unit) \<times> scheduler" where
  "add_job j s =
     (if job_id j \<in> set (map job_id (jobs s)) then (Inl (ConflictingIdError (job_id j)), s)
      else (Inr (), s\<lparr>jobs := jobs s @ [j]\<rparr>))"

fun remove_first :: "int \<Rightarrow> job list \<Rightarrow> job list" where
  "remove_first i [] = []"
| "remove_first i (j # js) = (if job_id j = i then js else j # remove_first i js)"

definition remove_job :: "int \<Rightarrow> scheduler \<Rightarrow> (error + unit) \<times> scheduler" where
  "remove_job i s =
     (if i \<in> set (map job_id (jobs s)) then (Inr (), s\<lparr>jobs := remove_first i (jobs s)\<rparr>)
      else (Inl (JobLookupError i), s))"

subsection \<open>The methods of TaskScheduler\<close>

definition register_task_function :: "string \<Rightarrow> scheduler \<Rightarrow> scheduler" where
  "register_task_function ty s = s\<lparr>task_functions := insert ty (task_functions s)\<rparr>"

text \<open>\<open>_schedule_task\<close>: both early returns of the source leave the job store as it is.\<close>

definition schedule_task ::
  "triggers \<Rightarrow> int \<Rightarrow> string \<Rightarrow> string \<Rightarrow> scheduler \<Rightarrow> (error + unit) \<times> scheduler" where
  "schedule_task lib task_id ty sch s =
     (if ty \<notin> task_functions s then (Inr (), s)
      else case parse_schedule lib sch of
        None \<Rightarrow> (Inr (), s)
      | Some trg \<Rightarrow> add_job \<lparr>job_id = task_id, job_trigger = trg, job_args = (task_id, ty)\<rparr> s)"

text \<open>
  \<open>add_task(task_type, priority, schedule, retry_count, max_retries, manual_trigger)\<close>,
  the arguments here \<open>ty pr sch rc mr manual\<close>. The row is committed before
  \<open>_schedule_task\<close> runs. \<open>if schedule\<close> is false for \<open>None\<close> and for the empty string.
\<close>

definition add_task ::
  "triggers \<Rightarrow> timestamp \<Rightarrow> string \<Rightarrow> string \<Rightarrow> string option \<Rightarrow> int \<Rightarrow> int \<Rightarrow> bool \<Rightarrow>
   scheduler \<Rightarrow> (error + int) \<times> scheduler" where
  "add_task lib now ty pr sch rc mr manual s =
     (if pr \<notin> set TASK_PRIORITIES then (Inl (ValueError (''Invalid priority: '' @ pr)), s)
      else
        let task_id = next_rowid (map row_id (tasks s));
            row = \<lparr>row_id = task_id, task_type = ty, priority = pr, schedule = sch,
                   retry_count = rc, max_retries = mr, status = ''pending'',
                   last_run_at = None, next_run_at = None,
                   created_at = now, updated_at = now\<rparr>;
            s1 = s\<lparr>tasks := tasks s @ [row]\<rparr>
        in case sch of
             None \<Rightarrow> (Inr task_id, s1)
           | Some str \<Rightarrow>
               if str \<noteq> [] \<and> \<not> manual then
                 (case schedule_task lib task_id ty str s1 of
                    (Inl e, s2) \<Rightarrow> (Inl e, s2)
                  | (Inr _, s2) \<Rightarrow> (Inr task_id, s2))
               else (Inr task_id, s1))"

text \<open>The defaults of the signature: \<open>priority="normal"\<close>, \<open>schedule=None\<close>,
  \<open>retry_count=3\<close>, \<open>max_retries=3\<close>, \<open>manual_trigger=False\<close>.\<close>

definition add_task_default ::
  "triggers \<Rightarrow> timestamp \<Rightarrow> string \<Rightarrow> scheduler \<Rightarrow> (error + int) \<times> scheduler" where
  "add_task_default lib now ty s = add_task lib now ty ''normal'' None 3 3 False s"

definition get_task_status :: "int \<Rightarrow> scheduler \<Rightarrow> task option" where
  "get_task_status task_id s = select_task task_id (tasks s)"

text \<open>
  \<open>_execute_task\<close>. The first UPDATE marks the row running; the SELECT reads the
  counters (on no row, \<open>task_data[0]\<close> raises and nothing is committed); the body runs
  when the type is registered; the second UPDATE and the INSERT record the outcome.
\<close>

definition mark_running :: "timestamp \<Rightarrow> int \<Rightarrow> task list \<Rightarrow> task list" where
  "mark_running started task_id rows =
     update_task task_id
       (\<lambda>r. r\<lparr>status := ''running'', last_run_at := Some started, updated_at := started\<rparr>) rows"

definition run_body :: "outcome \<Rightarrow> string \<Rightarrow> scheduler \<Rightarrow> bool \<times> string option" where
  "run_body out ty s =
     (if ty \<in> task_functions s then
        (case out of Returned \<Rightarrow> (True, None) | Raised e \<Rightarrow> (False, Some e))
      else (False, Some (''No function registered for task type: '' @ ty)))"

definition execute_task ::
  "timestamp \<Rightarrow> timestamp \<Rightarrow> outcome \<Rightarrow> int \<Rightarrow> string \<Rightarrow> scheduler \<Rightarrow>
   (error + unit) \<times> scheduler" where
  "execute_task started completed out task_id ty s =
     (let rows1 = mark_running started task_id (tasks s) in
      case select_task task_id rows1 of
        None \<Rightarrow> (Inl TypeError, s)
      | Some task_data \<Rightarrow>
          let rc = retry_count task_data;
              mr = max_retries task_data;
              (success, msg) = run_body out ty s;
              st = (if success then ''completed'' else ''failed'');
              rows2 =
                (if \<not> success \<and> rc < mr then
                   update_task task_id
                     (\<lambda>r. r\<lparr>retry_count := rc + 1, status := ''pending'',
                            updated_at := completed\<rparr>) rows1
                 else
                   update_task task_id (\<lambda>r. r\<lparr>status := st, updated_at := completed\<rparr>) rows1);
              entry = \<lparr>log_id = next_rowid (map log_id (task_logs s)), log_task_id = task_id,
                       log_status = st, started_at = started, completed_at = Some completed,
                       error_message = msg\<rparr>
          in (Inr (), s\<lparr>tasks := rows2, task_logs := task_logs s @ [entry]\<rparr>))"

text \<open>
  The two halves of \<open>_execute_task\<close>, with the state between them, as the transaction
  sees it. \<open>start_run\<close> is the first UPDATE (lines 225-231). \<open>finish_run\<close> is the rest
  (lines 233-289), from the SELECT to the INSERT into the log, on the state that the
  first UPDATE left.
\<close>

definition start_run :: "timestamp \<Rightarrow> int \<Rightarrow> scheduler \<Rightarrow> scheduler" where
  "start_run started task_id s = s\<lparr>tasks := mark_running started task_id (tasks s)\<rparr>"

definition finish_run ::
  "timestamp \<Rightarrow> timestamp \<Rightarrow> outcome \<Rightarrow> int \<Rightarrow> string \<Rightarrow> scheduler \<Rightarrow>
   (error + unit) \<times> scheduler" where
  "finish_run started completed out task_id ty s1 =
     (case select_task task_id (tasks s1) of
        None \<Rightarrow> (Inl TypeError, s1)
      | Some task_data \<Rightarrow>
          let rc = retry_count task_data;
              mr = max_retries task_data;
              (success, msg) = run_body out ty s1;
              st = (if success then ''completed'' else ''failed'');
              rows2 =
                (if \<not> success \<and> rc < mr then
                   update_task task_id
                     (\<lambda>r. r\<lparr>retry_count := rc + 1, status := ''pending'',
                            updated_at := completed\<rparr>) (tasks s1)
                 else
                   update_task task_id (\<lambda>r. r\<lparr>status := st, updated_at := completed\<rparr>)
                     (tasks s1));
              entry = \<lparr>log_id = next_rowid (map log_id (task_logs s1)), log_task_id = task_id,
                       log_status = st, started_at = started, completed_at = Some completed,
                       error_message = msg\<rparr>
          in (Inr (), s1\<lparr>tasks := rows2, task_logs := task_logs s1 @ [entry]\<rparr>))"

definition trigger_task ::
  "timestamp \<Rightarrow> timestamp \<Rightarrow> outcome \<Rightarrow> int \<Rightarrow> scheduler \<Rightarrow> (error + bool) \<times> scheduler" where
  "trigger_task started completed out task_id s =
     (case select_task task_id (tasks s) of
        None \<Rightarrow> (Inr False, s)
      | Some task_data \<Rightarrow>
          if status task_data \<in> set [''cancelled'', ''completed''] then (Inr False, s)
          else
            (case execute_task started completed out task_id (task_type task_data) s of
               (Inl e, s') \<Rightarrow> (Inl e, s')
             | (Inr _, s') \<Rightarrow> (Inr True, s')))"

text \<open>\<open>cancel_task\<close>: the bare \<open>except\<close> swallows the lookup error of \<open>remove_job\<close>.\<close>

definition cancel_task :: "timestamp \<Rightarrow> int \<Rightarrow> scheduler \<Rightarrow> bool \<times> scheduler" where
  "cancel_task now task_id s =
     (let s1 = snd (remove_job task_id s) in
      (True,
       s1\<lparr>tasks :=
            update_task task_id (\<lambda>r. r\<lparr>status := ''cancelled'', updated_at := now\<rparr>) (tasks s1)\<rparr>))"

subsection \<open>Sequences of calls\<close>

text \<open>
  The public operations, and a firing of a job by the engine: the engine calls
  \<open>_execute_task\<close> with the arguments of a job of its store, and does nothing for an id
  that has no job.
\<close>

datatype call =
  Register string
| Add timestamp string string "string option" int int bool
| Trigger timestamp timestamp outcome int
| Cancel timestamp int
| Fire timestamp timestamp outcome int

definition fire :: "timestamp \<Rightarrow> timestamp \<Rightarrow> outcome \<Rightarrow> int \<Rightarrow> scheduler \<Rightarrow> scheduler" where
  "fire started completed out i s =
     (case find (\<lambda>j. job_id j = i) (jobs s) of
        None \<Rightarrow> s
      | Some j \<Rightarrow> snd (execute_task started completed out (fst (job_args j)) (snd (job_args j)) s))"

fun do_call :: "triggers \<Rightarrow> call \<Rightarrow> scheduler \<Rightarrow> scheduler" where
  "do_call lib (Register ty) s = register_task_function ty s"
| "do_call lib (Add now ty pr sch rc mr manual) s = snd (add_task lib now ty pr sch rc mr manual s)"
| "do_call lib (Trigger started completed out i) s = snd (trigger_task started completed out i s)"
| "do_call lib (Cancel now i) s = snd (cancel_task now i s)"
| "do_call lib (Fire started completed out i) s = fire started completed out i s"

definition run_calls :: "triggers \<Rightarrow> call list \<Rightarrow> scheduler \<Rightarrow> scheduler" where
  "run_calls lib cs s = fold (do_call lib) cs s"

subsection \<open>Predicates on states and schedules\<close>

text \<open>Every row has \<open>0 \<le> retry_count \<le> max_retries\<close>.\<close>

definition retries_in_range :: "scheduler \<Rightarrow> bool" where
  "retries_in_range s \<longleftrightarrow> list_all (\<lambda>r. 0 \<le> retry_count r \<and> retry_count r \<le> max_retries r) (tasks s)"

text \<open>A call that, when it is \<open>add_task\<close>, is given \<open>0 \<le> retry_count \<le> max_retries\<close>.\<close>

fun retries_given_in_range :: "call \<Rightarrow> bool" where
  "retries_given_in_range (Add now ty pr sch rc mr manual) \<longleftrightarrow> 0 \<le> rc \<and> rc \<le> mr"
| "retries_given_in_range _ \<longleftrightarrow> True"

text \<open>Every job of the store carries the id of a task row.\<close>

definition jobs_known :: "scheduler \<Rightarrow> bool" where
  "jobs_known s \<longleftrightarrow> list_all (\<lambda>j. job_id j \<in> set (map row_id (tasks s))) (jobs s)"

text \<open>
  The job store as \<open>add_task\<close> and \<open>cancel_task\<close> leave it: one job per id, a job
  executes the task of its own id, and no job is left for a cancelled task.
\<close>

definition job_store_ok :: "scheduler \<Rightarrow> bool" where
  "job_store_ok s \<longleftrightarrow>
     distinct (map job_id (jobs s)) \<and>
     list_all (\<lambda>j. fst (job_args j) = job_id j \<and>
                   list_all (\<lambda>r. row_id r = job_id j \<longrightarrow> status r \<noteq> ''cancelled'') (tasks s))
       (jobs s)"

text \<open>
  The two schedule forms in the words of the specification: five whitespace-separated
  fields that the cron evaluator accepts, and the literal form \<open>interval N\<close> with \<open>N\<close> an
  integer.
\<close>

definition cron_form :: "triggers \<Rightarrow> string \<Rightarrow> bool" where
  "cron_form lib sch \<longleftrightarrow>
     (case split sch of [a, b, c, d, e] \<Rightarrow> cron_accepts lib a b c d e | _ \<Rightarrow> False)"

definition interval_form :: "string \<Rightarrow> bool" where
  "interval_form sch \<longleftrightarrow> startswith sch ''interval '' \<and> py_int (drop 9 sch) \<noteq> None"

text \<open>
  What the source reads as an interval: a string that starts with \<open>interval \<close> and
  whose second whitespace-separated field is an integer; further fields are ignored.
\<close>

definition interval_prefix_form :: "string \<Rightarrow> bool" where
  "interval_prefix_form sch \<longleftrightarrow>
     startswith sch ''interval '' \<and>
     (case split sch of _ # p # _ \<Rightarrow> py_int p \<noteq> None | _ \<Rightarrow> False)"

subsection \<open>Concrete inputs\<close>

text \<open>
  A small instance of the trigger library for concrete inputs: a cron field is \<open>*\<close> or
  a number, and every interval is accepted. The theorems hold for every instance.
\<close>

definition plain_field :: "string \<Rightarrow> bool" where
  "plain_field f \<longleftrightarrow> f = ''*'' \<or> (f \<noteq> [] \<and> list_all is_digit f)"

definition plain_triggers :: triggers where
  "plain_triggers =
     \<lparr>cron_accepts = (\<lambda>a b c d e. list_all plain_field [a, b, c, d, e]),
      interval_accepts = (\<lambda>n. True)\<rparr>"

definition clock0 :: timestamp where "clock0 = ''2024-01-01T22:00:00+00:00''"
definition clock1 :: timestamp where "clock1 = ''2024-01-01T23:00:00+00:00''"
definition clock2 :: timestamp where "clock2 = ''2024-01-01T23:00:05+00:00''"
definition clock3 :: timestamp where "clock3 = ''2024-01-02T09:00:00+00:00''"

text \<open>One task of a registered type, added with \<open>retry_count=0, max_retries=3\<close>.\<close>

definition one_pending :: scheduler where
  "one_pending =
     run_calls plain_triggers
       [Register ''job'', Add clock0 ''job'' ''normal'' None 0 3 False] init_scheduler"

text \<open>The same task after one run in which the body returned.\<close>

definition one_completed :: scheduler where
  "one_completed = do_call plain_triggers (Trigger clock1 clock2 Returned 1) one_pending"

text \<open>A task added with the defaults of \<open>add_task\<close>, after one run in which the body raised.\<close>

definition one_failed :: scheduler where
  "one_failed =
     run_calls plain_triggers
       [Register ''job'', Add clock0 ''job'' ''normal'' None 3 3 False,
        Trigger clock1 clock2 (Raised ''boom'') 1] init_scheduler"

text \<open>A scheduled task of a registered type, cancelled after it was added.\<close>

definition one_cancelled :: scheduler where
  "one_cancelled =
     run_calls plain_triggers
       [Register ''job'', Add clock0 ''job'' ''normal'' (Some ''interval 5'') 0 3 False,
        Cancel clock1 1] init_scheduler"

text \<open>A task of a registered type with an interval schedule, so with a job in the store.\<close>

definition one_scheduled :: scheduler where
  "one_scheduled =
     run_calls plain_triggers
       [Register ''job'', Add clock0 ''job'' ''normal'' (Some ''interval 5'') 0 3 False]
       init_scheduler"

text \<open>The same task after one firing in which the body returned.\<close>

definition scheduled_completed :: scheduler where
  "scheduled_completed = do_call plain_triggers (Fire clock1 clock2 Returned 1) one_scheduled"

text \<open>A scheduled task with \<open>retry_count=3, max_retries=3\<close> after one firing in which the
  body raised.\<close>

definition scheduled_failed :: scheduler where
  "scheduled_failed =
     run_calls plain_triggers
       [Register ''job'', Add clock0 ''job'' ''normal'' (Some ''interval 5'') 3 3 False,
        Fire clock1 clock2 (Raised ''boom'') 1] init_scheduler"

section \<open>Properties\<close>

subsection \<open>Facts about the SQL statements\<close>

lemma fold_max_ge: "(a::int) \<le> fold max xs a"
  by (induction xs arbitrary: a) (auto intro: order_trans [OF max.cobounded2])

lemma fold_max_mem: "x \<in> set xs \<Longrightarrow> (x::int) \<le> fold max xs a"
proof (induction xs arbitrary: a)
  case Nil
  then show ?case by simp
next
  case (Cons y ys)
  show ?case
  proof (cases "x = y")
    case True
    have "y \<le> max y a" by simp
    also have "\<dots> \<le> fold max ys (max y a)" by (rule fold_max_ge)
    finally show ?thesis using True by simp
  next
    case False
    with Cons show ?thesis by simp
  qed
qed

lemma next_rowid_fresh: "next_rowid ids \<notin> set ids"
proof
  assume "next_rowid ids \<in> set ids"
  then have "next_rowid ids \<le> fold max ids 0" by (rule fold_max_mem)
  then show False by (simp add: next_rowid_def)
qed

lemma select_task_None: "select_task i rows = None \<longleftrightarrow> i \<notin> set (map row_id rows)"
  by (auto simp: select_task_def find_None_iff)

lemma select_task_Some: "select_task i rows = Some r \<Longrightarrow> r \<in> set rows \<and> row_id r = i"
  by (auto simp: select_task_def find_Some_iff)

lemma select_task_append:
  "select_task i (rows @ [r]) =
     (case select_task i rows of
        Some x \<Rightarrow> Some x
      | None \<Rightarrow> if row_id r = i then Some r else None)"
  by (induction rows) (auto simp: select_task_def)

lemma select_task_update:
  assumes "\<And>r. row_id (f r) = row_id r"
  shows "select_task i (update_task j f rows) =
           map_option (\<lambda>r. if row_id r = j then f r else r) (select_task i rows)"
  by (induction rows) (auto simp: select_task_def update_task_def assms)

lemma update_task_absent: "select_task i rows = None \<Longrightarrow> update_task i f rows = rows"
  by (induction rows) (auto simp: select_task_def update_task_def split: if_splits)

lemma run_body_success: "fst (run_body out ty s) \<longleftrightarrow> ty \<in> task_functions s \<and> out = Returned"
  by (simp add: run_body_def split: outcome.splits)

lemma select_task_mark_running:
  "select_task i (mark_running started j rows) =
     map_option (\<lambda>r. if row_id r = j
        then r\<lparr>status := ''running'', last_run_at := Some started, updated_at := started\<rparr>
        else r) (select_task i rows)"
  unfolding mark_running_def by (rule select_task_update) simp

subsection \<open>Evaluating the concrete inputs\<close>

lemmas ops_defs =
  run_calls_def add_task_def schedule_task_def add_job_def register_task_function_def
  trigger_task_def execute_task_def cancel_task_def remove_job_def fire_def
  mark_running_def run_body_def update_task_def select_task_def get_task_status_def
  next_rowid_def init_scheduler_def TASK_PRIORITIES_def Let_def

lemma one_pending_row:
  "get_task_status 1 one_pending =
     Some \<lparr>row_id = 1, task_type = ''job'', priority = ''normal'', schedule = None,
           retry_count = 0, max_retries = 3, status = ''pending'', last_run_at = None,
           next_run_at = None, created_at = clock0, updated_at = clock0\<rparr>"
  by (simp add: one_pending_def ops_defs)

subsection \<open>Run outcomes (C7)\<close>

text \<open>
  C7. A run of an existing task (\<open>_execute_task\<close>) does not raise. When the body is
  registered and returns, the status becomes completed and the counter stays. On a
  failure (the body raises, or no body is registered for the type) with
  \<open>retry_count < max_retries\<close> the counter grows by exactly one and the status becomes
  pending; on a failure with \<open>retry_count \<ge> max_retries\<close> the status becomes failed and
  the counter stays. In each case exactly one entry is appended to the log, for this
  task, with status completed on success and failed otherwise.
\<close>

theorem execute_task_outcome:
  assumes "get_task_status task_id s = Some r"
  shows "fst (execute_task started completed out task_id ty s) = Inr () \<and>
    (\<exists>r'. get_task_status task_id (snd (execute_task started completed out task_id ty s)) = Some r' \<and>
       (ty \<in> task_functions s \<and> out = Returned \<longrightarrow>
          status r' = ''completed'' \<and> retry_count r' = retry_count r) \<and>
       (\<not> (ty \<in> task_functions s \<and> out = Returned) \<and> retry_count r < max_retries r \<longrightarrow>
          status r' = ''pending'' \<and> retry_count r' = retry_count r + 1) \<and>
       (\<not> (ty \<in> task_functions s \<and> out = Returned) \<and> max_retries r \<le> retry_count r \<longrightarrow>
          status r' = ''failed'' \<and> retry_count r' = retry_count r)) \<and>
    (\<exists>entry. task_logs (snd (execute_task started completed out task_id ty s)) = task_logs s @ [entry] \<and>
       log_task_id entry = task_id \<and>
       log_status entry =
         (if ty \<in> task_functions s \<and> out = Returned then ''completed'' else ''failed''))"
proof -
  from assms have sel: "select_task task_id (tasks s) = Some r"
    by (simp add: get_task_status_def)
  then have rid: "row_id r = task_id"
    by (simp add: select_task_Some)
  obtain success msg where rb: "run_body out ty s = (success, msg)"
    by (cases "run_body out ty s")
  then have succ: "success \<longleftrightarrow> ty \<in> task_functions s \<and> out = Returned"
    using run_body_success [of out ty s] by simp
  show ?thesis
    using sel rid rb succ
    by (simp add: execute_task_def get_task_status_def select_task_mark_running
        select_task_update Let_def)
qed

theorem execute_task_outcome_witness:
  "get_task_status 1 one_pending \<noteq> None \<and>
   fst (execute_task clock1 clock2 (Raised ''boom'') 1 ''job'' one_pending) = Inr () \<and>
   (\<exists>r'. get_task_status 1 (snd (execute_task clock1 clock2 (Raised ''boom'') 1 ''job'' one_pending))
            = Some r' \<and> status r' = ''pending'' \<and> retry_count r' = 1) \<and>
   (\<exists>entry. task_logs (snd (execute_task clock1 clock2 (Raised ''boom'') 1 ''job'' one_pending))
            = task_logs one_pending @ [entry] \<and>
            log_task_id entry = 1 \<and> log_status entry = ''failed'')"
  using execute_task_outcome [OF one_pending_row, of clock1 clock2 "Raised ''boom''" "''job''"]
  by (simp add: one_pending_row)

subsection \<open>Invalid priority (C8)\<close>

text \<open>
  C8. For every priority outside low, normal, high, critical, \<open>add_task\<close> raises the
  ValueError and the state is the one before the call: no row is inserted and no job is
  registered.
\<close>

theorem add_task_invalid_priority:
  assumes "pr \<notin> {''low'', ''normal'', ''high'', ''critical''}"
  shows "add_task lib now ty pr sch rc mr manual s =
           (Inl (ValueError (''Invalid priority: '' @ pr)), s)"
  using assms by (simp add: add_task_def TASK_PRIORITIES_def)

theorem add_task_invalid_priority_witness:
  "''urgent'' \<notin> {''low'', ''normal'', ''high'', ''critical''} \<and>
   add_task plain_triggers clock0 ''nightly_extraction'' ''urgent''
       (Some ''0 23 * * *'') 0 3 False init_scheduler
     = (Inl (ValueError ''Invalid priority: urgent''), init_scheduler)"
  using add_task_invalid_priority [of "''urgent''" plain_triggers clock0
      "''nightly_extraction''" "Some ''0 23 * * *''" 0 3 False init_scheduler]
  by simp

subsection \<open>The result of cancel_task (C10)\<close>

text \<open>
  C10. For every task id, \<open>cancel_task\<close> returns True, whatever the status of the task;
  when no task has that id, no row of the table changes.
\<close>

theorem cancel_task_always_True:
  "fst (cancel_task now task_id s) = True \<and>
   (get_task_status task_id s = None \<longrightarrow> tasks (snd (cancel_task now task_id s)) = tasks s)"
  by (simp add: cancel_task_def get_task_status_def remove_job_def update_task_absent Let_def)

theorem cancel_task_always_True_witness:
  "get_task_status 7 init_scheduler = None \<and>
   fst (cancel_task clock0 7 init_scheduler) = True \<and>
   tasks (snd (cancel_task clock0 7 init_scheduler)) = tasks init_scheduler"
  using cancel_task_always_True [of clock0 7 init_scheduler]
  by (simp add: get_task_status_def select_task_def init_scheduler_def)

subsection \<open>Facts about add_task\<close>

lemma parse_schedule_empty: "parse_schedule lib [] = None"
  by (simp add: parse_schedule_def split_def startswith_def)

lemma length_five: "length xs = 5 \<Longrightarrow> \<exists>a b c d e. xs = [a, b, c, d, e]"
  by (auto simp: numeral_eq_Suc length_Suc_conv)

lemma parse_schedule_None:
  assumes "\<not> cron_form lib sch" and "\<not> interval_prefix_form sch"
  shows "parse_schedule lib sch = None"
proof (cases "length (split sch) = 5")
  case True
  then obtain a b c d e where parts: "split sch = [a, b, c, d, e]"
    using length_five by blast
  with assms(1) have "\<not> cron_accepts lib a b c d e"
    by (simp add: cron_form_def)
  with parts show ?thesis
    by (simp add: parse_schedule_def)
next
  case False
  with assms(2) show ?thesis
    by (auto simp: parse_schedule_def interval_prefix_form_def Let_def
        split: list.splits option.splits)
qed

lemma jobs_known_fresh:
  "jobs_known s \<Longrightarrow> next_rowid (map row_id (tasks s)) \<notin> set (map job_id (jobs s))"
  using next_rowid_fresh [of "map row_id (tasks s)"]
  by (auto simp: jobs_known_def list_all_iff)

lemma schedule_task_tasks: "tasks (snd (schedule_task lib i ty str s)) = tasks s"
  by (simp add: schedule_task_def add_job_def split: option.splits)

lemma schedule_task_jobs:
  assumes "i \<notin> set (map job_id (jobs s))"
  shows "schedule_task lib i ty str s =
     (Inr (), s\<lparr>jobs := jobs s @
        (if ty \<in> task_functions s then
           (case parse_schedule lib str of
              None \<Rightarrow> []
            | Some trg \<Rightarrow> [\<lparr>job_id = i, job_trigger = trg, job_args = (i, ty)\<rparr>])
         else [])\<rparr>)"
  using assms by (simp add: schedule_task_def add_job_def split: option.splits)

lemma add_task_valid:
  assumes "pr \<in> {''low'', ''normal'', ''high'', ''critical''}"
    and "next_rowid (map row_id (tasks s)) \<notin> set (map job_id (jobs s))"
  shows "add_task lib now ty pr sch rc mr manual s =
     (Inr (next_rowid (map row_id (tasks s))),
      s\<lparr>tasks := tasks s @
           [\<lparr>row_id = next_rowid (map row_id (tasks s)), task_type = ty, priority = pr,
             schedule = sch, retry_count = rc, max_retries = mr, status = ''pending'',
             last_run_at = None, next_run_at = None, created_at = now, updated_at = now\<rparr>],
         jobs := jobs s @
           (case sch of
              None \<Rightarrow> []
            | Some str \<Rightarrow>
                if str \<noteq> [] \<and> \<not> manual \<and> ty \<in> task_functions s then
                  (case parse_schedule lib str of
                     None \<Rightarrow> []
                   | Some trg \<Rightarrow>
                       [\<lparr>job_id = next_rowid (map row_id (tasks s)), job_trigger = trg,
                         job_args = (next_rowid (map row_id (tasks s)), ty)\<rparr>])
                else [])\<rparr>)"
proof -
  from assms(1) have "pr \<in> set TASK_PRIORITIES"
    by (simp add: TASK_PRIORITIES_def)
  then show ?thesis
    using assms(2)
    by (cases sch) (simp_all add: add_task_def Let_def schedule_task_jobs)
qed

subsection \<open>What add_task persists (C1)\<close>

text \<open>
  C1 as stated: for every valid priority the new row has \<open>retry_count\<close> 0 and
  \<open>get_task_status\<close> reports 0. The row takes the \<open>retry_count\<close> argument of the call
  instead: a call with \<open>retry_count=2\<close> returns the id 1 and the status read reports 2.
\<close>

theorem add_task_retry_count_counterexample:
  "fst (add_task plain_triggers clock0 ''nightly_extraction'' ''critical''
          (Some ''0 23 * * *'') 2 3 False init_scheduler) = Inr 1 \<and>
   map_option retry_count
     (get_task_status 1
        (snd (add_task plain_triggers clock0 ''nightly_extraction'' ''critical''
                (Some ''0 23 * * *'') 2 3 False init_scheduler))) \<noteq> Some 0"
  by (simp add: ops_defs)

text \<open>
  C1, amended. For every valid priority (in a state whose jobs all belong to task rows)
  \<open>add_task\<close> returns an id that no row had, appends exactly one row, of that id, with
  status pending, the \<open>retry_count\<close> argument of the call (0 when the caller passes 0)
  and the schedule as given, and \<open>get_task_status\<close> of the id reports that row.
\<close>

theorem add_task_persists:
  assumes "pr \<in> {''low'', ''normal'', ''high'', ''critical''}" and "jobs_known s"
  shows "\<exists>i r. fst (add_task lib now ty pr sch rc mr manual s) = Inr i \<and>
     i \<notin> set (map row_id (tasks s)) \<and>
     tasks (snd (add_task lib now ty pr sch rc mr manual s)) = tasks s @ [r] \<and>
     row_id r = i \<and> status r = ''pending'' \<and> retry_count r = rc \<and> schedule r = sch \<and>
     get_task_status i (snd (add_task lib now ty pr sch rc mr manual s)) = Some r"
proof -
  let ?i = "next_rowid (map row_id (tasks s))"
  have fresh: "?i \<notin> set (map row_id (tasks s))"
    by (rule next_rowid_fresh)
  then have none: "select_task ?i (tasks s) = None"
    by (simp add: select_task_None)
  from assms(2) have "?i \<notin> set (map job_id (jobs s))"
    by (rule jobs_known_fresh)
  with assms(1) show ?thesis
    using fresh none
    by (simp add: add_task_valid get_task_status_def select_task_append)
qed

theorem add_task_persists_witness:
  "''critical'' \<in> {''low'', ''normal'', ''high'', ''critical''} \<and> jobs_known init_scheduler \<and>
   (\<exists>i r. fst (add_task plain_triggers clock0 ''nightly_extraction'' ''critical''
                  (Some ''0 23 * * *'') 0 3 False init_scheduler) = Inr i \<and>
      status r = ''pending'' \<and> retry_count r = 0 \<and> schedule r = Some ''0 23 * * *'' \<and>
      get_task_status i (snd (add_task plain_triggers clock0 ''nightly_extraction'' ''critical''
                  (Some ''0 23 * * *'') 0 3 False init_scheduler)) = Some r)"
proof -
  have p: "''critical'' \<in> {''low'', ''normal'', ''high'', ''critical''}" by simp
  have k: "jobs_known init_scheduler" by (simp add: jobs_known_def init_scheduler_def)
  from add_task_persists [OF p k, of plain_triggers clock0 "''nightly_extraction''"
      "Some ''0 23 * * *''" 0 3 False]
  show ?thesis using p k by blast
qed

subsection \<open>Retries of a task added with the defaults (C2)\<close>

text \<open>
  C2. A task added with the default arguments starts at \<open>retry_count=3\<close>, the default
  of the signature, which is also \<open>max_retries\<close>: the first failed run finds
  \<open>retry_count < max_retries\<close> false and leaves the task failed with the counter at 3,
  where the claim has pending with the counter at 1.
\<close>

theorem default_task_fails_at_first_failure:
  "fst (add_task_default plain_triggers clock0 ''job'' (register_task_function ''job'' init_scheduler))
     = Inr 1 \<and>
   map_option (\<lambda>r. (status r, retry_count r))
     (get_task_status 1
        (snd (execute_task clock1 clock2 (Raised ''boom'') 1 ''job''
           (snd (add_task_default plain_triggers clock0 ''job''
              (register_task_function ''job'' init_scheduler))))))
     = Some (''failed'', 3)"
  by (simp add: add_task_default_def ops_defs)

text \<open>
  With \<open>retry_count=0\<close> passed explicitly, four failed runs give the sequence of the
  claim: pending with 1, 2, 3 and then failed.
\<close>

lemma retries_from_zero:
  "map (\<lambda>n. map_option (\<lambda>r. (status r, retry_count r))
          (get_task_status 1
             (run_calls plain_triggers
                (replicate n (Trigger clock1 clock2 (Raised ''boom'') 1)) one_pending)))
     [1, 2, 3, 4]
   = [Some (''pending'', 1), Some (''pending'', 2), Some (''pending'', 3), Some (''failed'', 3)]"
  by (simp add: one_pending_def numeral_eq_Suc ops_defs)

subsection \<open>Registering the trigger (C5)\<close>

lemma plain_nightly:
  "parse_schedule plain_triggers ''0 23 * * *'' =
     Some (CronTrigger ''0'' ''23'' ''*'' ''*'' ''*'')"
  by (simp add: parse_schedule_def split_def is_space_def startswith_def
      plain_triggers_def plain_field_def is_digit_def)

text \<open>
  C5 as stated: a schedule that parses, without manual-only mode, registers the trigger
  for every task type, registered or not. \<open>_schedule_task\<close> returns before parsing when
  no body is registered for the type: \<open>"0 23 * * *"\<close> parses, the task is created with id
  1, and the job store stays empty.
\<close>

theorem unregistered_type_counterexample:
  "parse_schedule plain_triggers ''0 23 * * *'' \<noteq> None \<and>
   fst (add_task plain_triggers clock0 ''nightly_extraction'' ''critical''
          (Some ''0 23 * * *'') 0 3 False init_scheduler) = Inr 1 \<and>
   jobs (snd (add_task plain_triggers clock0 ''nightly_extraction'' ''critical''
          (Some ''0 23 * * *'') 0 3 False init_scheduler)) = []"
  by (simp add: ops_defs parse_schedule_def split_def is_space_def startswith_def
      plain_triggers_def plain_field_def is_digit_def)

text \<open>
  C5, amended. If the schedule parses, the caller did not request manual-only mode and
  the priority is valid (in a state whose jobs all belong to task rows), \<open>add_task\<close>
  returns the new id and registers the trigger, as one new job for that id, exactly when
  a body is registered for the task type at the time of the call; when none is
  registered the job store is unchanged.
\<close>

theorem add_task_registers_trigger:
  assumes "pr \<in> {''low'', ''normal'', ''high'', ''critical''}" and "jobs_known s"
    and "parse_schedule lib str = Some trg" and "\<not> manual"
  shows "fst (add_task lib now ty pr (Some str) rc mr manual s)
           = Inr (next_rowid (map row_id (tasks s))) \<and>
     jobs (snd (add_task lib now ty pr (Some str) rc mr manual s)) =
       (if ty \<in> task_functions s then
          jobs s @ [\<lparr>job_id = next_rowid (map row_id (tasks s)), job_trigger = trg,
                     job_args = (next_rowid (map row_id (tasks s)), ty)\<rparr>]
        else jobs s)"
proof -
  from assms(3) have "str \<noteq> []"
    using parse_schedule_empty [of lib] by auto
  moreover from assms(2) have "next_rowid (map row_id (tasks s)) \<notin> set (map job_id (jobs s))"
    by (rule jobs_known_fresh)
  ultimately show ?thesis
    using assms(1,3,4) by (simp add: add_task_valid)
qed

theorem add_task_registers_trigger_witness:
  "''critical'' \<in> {''low'', ''normal'', ''high'', ''critical''} \<and>
   jobs_known (register_task_function ''nightly_extraction'' init_scheduler) \<and>
   parse_schedule plain_triggers ''0 23 * * *'' = Some (CronTrigger ''0'' ''23'' ''*'' ''*'' ''*'') \<and>
   \<not> False \<and>
   jobs (snd (add_task plain_triggers clock0 ''nightly_extraction'' ''critical''
                (Some ''0 23 * * *'') 0 3 False
                (register_task_function ''nightly_extraction'' init_scheduler))) =
     [\<lparr>job_id = 1, job_trigger = CronTrigger ''0'' ''23'' ''*'' ''*'' ''*'',
       job_args = (1, ''nightly_extraction'')\<rparr>]"
proof -
  have p: "''critical'' \<in> {''low'', ''normal'', ''high'', ''critical''}" by simp
  have k: "jobs_known (register_task_function ''nightly_extraction'' init_scheduler)"
    by (simp add: jobs_known_def register_task_function_def init_scheduler_def)
  have m: "\<not> False" by simp
  from add_task_registers_trigger [OF p k plain_nightly m, of clock0 "''nightly_extraction''" 0 3]
  show ?thesis using p k plain_nightly
    by (simp add: register_task_function_def init_scheduler_def next_rowid_def)
qed

subsection \<open>Schedules that do not parse (C9)\<close>

text \<open>
  C9 as stated: a schedule that is neither five accepted cron fields nor of the form
  \<open>interval N\<close> registers no trigger. \<open>_parse_schedule\<close> reads only the second field
  after the prefix \<open>interval \<close>: \<open>"interval 5 6"\<close> has neither form, and a job with the
  interval 5 is registered for it.
\<close>

theorem trailing_field_counterexample:
  "\<not> cron_form plain_triggers ''interval 5 6'' \<and> \<not> interval_form ''interval 5 6'' \<and>
   jobs (snd (add_task plain_triggers clock0 ''job'' ''normal'' (Some ''interval 5 6'') 0 3 False
                (register_task_function ''job'' init_scheduler)))
     = [\<lparr>job_id = 1, job_trigger = IntervalTrigger 5, job_args = (1, ''job'')\<rparr>]"
  by (simp add: ops_defs parse_schedule_def split_def is_space_def startswith_def
      cron_form_def interval_form_def py_int_def py_unsigned_def is_digit_def digit_value_def
      plain_triggers_def)

text \<open>
  C9, amended. For every schedule string that is neither five whitespace-separated
  fields accepted by the cron evaluator nor a string that starts with \<open>interval \<close> and
  has an integer as its second field, \<open>add_task\<close> (with a valid priority) raises
  nothing: it returns the new id, the row is created with status pending and the
  schedule as given, and the job store is unchanged.
\<close>

theorem add_task_unparsed_schedule:
  assumes "pr \<in> {''low'', ''normal'', ''high'', ''critical''}"
    and "\<not> cron_form lib str" and "\<not> interval_prefix_form str"
  shows "fst (add_task lib now ty pr (Some str) rc mr manual s)
           = Inr (next_rowid (map row_id (tasks s))) \<and>
     (\<exists>r. tasks (snd (add_task lib now ty pr (Some str) rc mr manual s)) = tasks s @ [r] \<and>
        row_id r = next_rowid (map row_id (tasks s)) \<and> status r = ''pending'' \<and>
        schedule r = Some str) \<and>
     jobs (snd (add_task lib now ty pr (Some str) rc mr manual s)) = jobs s"
proof -
  from assms(2,3) have "parse_schedule lib str = None"
    by (rule parse_schedule_None)
  moreover from assms(1) have "pr \<in> set TASK_PRIORITIES"
    by (simp add: TASK_PRIORITIES_def)
  ultimately show ?thesis
    by (simp add: add_task_def schedule_task_def Let_def)
qed

theorem add_task_unparsed_schedule_witness:
  "''normal'' \<in> {''low'', ''normal'', ''high'', ''critical''} \<and>
   \<not> cron_form plain_triggers ''every day'' \<and> \<not> interval_prefix_form ''every day'' \<and>
   fst (add_task plain_triggers clock0 ''job'' ''normal'' (Some ''every day'') 0 3 False
          (register_task_function ''job'' init_scheduler)) = Inr 1 \<and>
   jobs (snd (add_task plain_triggers clock0 ''job'' ''normal'' (Some ''every day'') 0 3 False
          (register_task_function ''job'' init_scheduler))) = []"
proof -
  have p: "''normal'' \<in> {''low'', ''normal'', ''high'', ''critical''}" by simp
  have c: "\<not> cron_form plain_triggers ''every day''"
    by (simp add: cron_form_def split_def is_space_def)
  have i: "\<not> interval_prefix_form ''every day''"
    by (simp add: interval_prefix_form_def startswith_def)
  from add_task_unparsed_schedule [OF p c i, of clock0 "''job''" 0 3 False
      "register_task_function ''job'' init_scheduler"]
  show ?thesis using p c i
    by (simp add: register_task_function_def init_scheduler_def next_rowid_def)
qed

subsection \<open>The result of trigger_task (C6)\<close>

lemma execute_task_ok:
  assumes "select_task task_id (tasks s) = Some r"
  shows "fst (execute_task started completed out task_id ty s) = Inr ()"
  using assms
  by (simp add: execute_task_def select_task_mark_running Let_def split: prod.splits)

lemma one_completed_row:
  "get_task_status 1 one_completed =
     Some \<lparr>row_id = 1, task_type = ''job'', priority = ''normal'', schedule = None,
           retry_count = 0, max_retries = 3, status = ''completed'',
           last_run_at = Some clock1, next_run_at = None, created_at = clock0,
           updated_at = clock2\<rparr>"
  by (simp add: one_completed_def one_pending_def ops_defs)

lemma one_failed_row:
  "get_task_status 1 one_failed =
     Some \<lparr>row_id = 1, task_type = ''job'', priority = ''normal'', schedule = None,
           retry_count = 3, max_retries = 3, status = ''failed'',
           last_run_at = Some clock1, next_run_at = None, created_at = clock0,
           updated_at = clock2\<rparr>"
  by (simp add: one_failed_def ops_defs)

text \<open>
  C6 as stated: \<open>trigger_task\<close> returns false, changing nothing, for a task that is
  completed, failed or cancelled. The source refuses cancelled and completed only: on
  a failed task it returns True and runs the task again, here to completed.
\<close>

theorem trigger_failed_task_counterexample:
  "map_option status (get_task_status 1 one_failed) = Some ''failed'' \<and>
   fst (trigger_task clock3 clock3 Returned 1 one_failed) = Inr True \<and>
   map_option status (get_task_status 1 (snd (trigger_task clock3 clock3 Returned 1 one_failed)))
     = Some ''completed''"
  by (simp add: one_failed_def ops_defs)

text \<open>
  C6, amended. \<open>trigger_task\<close> returns False exactly when the task does not exist or
  its status is cancelled or completed, and then the state is unchanged; for any other
  existing task, a failed one included, it executes the task (which does not raise) and
  returns True.
\<close>

theorem trigger_task_result:
  "(fst (trigger_task started completed out task_id s) = Inr False \<longleftrightarrow>
      get_task_status task_id s = None \<or>
      (\<exists>r. get_task_status task_id s = Some r \<and> status r \<in> {''cancelled'', ''completed''})) \<and>
   (fst (trigger_task started completed out task_id s) = Inr False \<longrightarrow>
      snd (trigger_task started completed out task_id s) = s) \<and>
   (\<forall>r. get_task_status task_id s = Some r \<and> status r \<notin> {''cancelled'', ''completed''} \<longrightarrow>
      fst (execute_task started completed out task_id (task_type r) s) = Inr () \<and>
      trigger_task started completed out task_id s =
        (Inr True, snd (execute_task started completed out task_id (task_type r) s)))"
proof (cases "get_task_status task_id s")
  case None
  then show ?thesis by (simp add: trigger_task_def get_task_status_def)
next
  case (Some r)
  show ?thesis
  proof (cases "status r = ''cancelled'' \<or> status r = ''completed''")
    case True
    with Some show ?thesis by (auto simp: trigger_task_def get_task_status_def)
  next
    case False
    let ?R = "execute_task started completed out task_id (task_type r) s"
    from Some have "select_task task_id (tasks s) = Some r"
      by (simp add: get_task_status_def)
    then have ok: "fst ?R = Inr ()" by (rule execute_task_ok)
    then have "trigger_task started completed out task_id s = (Inr True, snd ?R)"
      using Some False
      by (cases ?R) (auto simp: trigger_task_def get_task_status_def split: sum.splits)
    with ok Some False show ?thesis by simp
  qed
qed

theorem trigger_task_result_witness:
  "fst (trigger_task clock3 clock3 Returned 1 one_completed) = Inr False \<and>
   snd (trigger_task clock3 clock3 Returned 1 one_completed) = one_completed \<and>
   (\<exists>r. get_task_status 1 one_failed = Some r \<and> status r \<notin> {''cancelled'', ''completed''}) \<and>
   fst (trigger_task clock3 clock3 Returned 1 one_failed) = Inr True"
  using trigger_task_result [of clock3 clock3 Returned 1 one_completed]
    trigger_task_result [of clock3 clock3 Returned 1 one_failed]
  by (simp add: one_completed_row one_failed_row)

subsection \<open>Facts about runs and calls\<close>

lemma update_task_twice:
  assumes "\<And>r. row_id (g r) = row_id r"
  shows "update_task i f (update_task i g rows) = update_task i (\<lambda>r. f (g r)) rows"
  by (simp add: update_task_def assms)

lemma set_update_task:
  "r' \<in> set (update_task i f rows) \<Longrightarrow>
     \<exists>r \<in> set rows. r' = (if row_id r = i then f r else r)"
  by (auto simp: update_task_def)

lemma row_ids_update_task:
  assumes "\<And>r. row_id (f r) = row_id r"
  shows "map row_id (update_task i f rows) = map row_id rows"
  by (simp add: update_task_def assms)

lemma execute_task_absent:
  "select_task task_id (tasks s) = None \<Longrightarrow>
     execute_task started completed out task_id ty s = (Inl TypeError, s)"
  by (simp add: execute_task_def select_task_mark_running)

text \<open>The two branches of a run, from the row \<open>r0\<close> that its SELECT reads.\<close>

lemma select_task_running:
  assumes "select_task task_id (tasks s) = Some r0"
  shows "select_task task_id
           (update_task task_id
              (\<lambda>r. r\<lparr>status := ''running'', last_run_at := Some started, updated_at := started\<rparr>)
              (tasks s)) =
         Some (r0\<lparr>status := ''running'', last_run_at := Some started, updated_at := started\<rparr>)"
  using assms select_task_Some [OF assms] by (simp add: select_task_update)

lemma execute_task_retry:
  assumes "select_task task_id (tasks s) = Some r0"
    and "\<not> (ty \<in> task_functions s \<and> out = Returned)"
    and "retry_count r0 < max_retries r0"
  shows "execute_task started completed out task_id ty s =
     (Inr (),
      s\<lparr>tasks :=
           update_task task_id
             (\<lambda>r. r\<lparr>last_run_at := Some started, retry_count := retry_count r0 + 1,
                    status := ''pending'', updated_at := completed\<rparr>)
             (tasks s),
         task_logs := task_logs s @
           [\<lparr>log_id = next_rowid (map log_id (task_logs s)), log_task_id = task_id,
             log_status = ''failed'', started_at = started, completed_at = Some completed,
             error_message = snd (run_body out ty s)\<rparr>]\<rparr>)"
proof -
  obtain success msg where rb: "run_body out ty s = (success, msg)"
    by (cases "run_body out ty s")
  with assms(2) have "\<not> success"
    using run_body_success [of out ty s] by simp
  with rb assms(3) show ?thesis
    by (simp add: execute_task_def select_task_running [OF assms(1)] Let_def mark_running_def
        update_task_twice)
qed

lemma execute_task_final:
  assumes "select_task task_id (tasks s) = Some r0"
    and "(ty \<in> task_functions s \<and> out = Returned) \<or> \<not> retry_count r0 < max_retries r0"
  shows "execute_task started completed out task_id ty s =
     (Inr (),
      s\<lparr>tasks :=
           update_task task_id
             (\<lambda>r. r\<lparr>last_run_at := Some started,
                    status :=
                      (if ty \<in> task_functions s \<and> out = Returned then ''completed''
                       else ''failed''),
                    updated_at := completed\<rparr>)
             (tasks s),
         task_logs := task_logs s @
           [\<lparr>log_id = next_rowid (map log_id (task_logs s)), log_task_id = task_id,
             log_status =
               (if ty \<in> task_functions s \<and> out = Returned then ''completed'' else ''failed''),
             started_at = started, completed_at = Some completed,
             error_message = snd (run_body out ty s)\<rparr>]\<rparr>)"
proof -
  obtain success msg where rb: "run_body out ty s = (success, msg)"
    by (cases "run_body out ty s")
  then have "success \<longleftrightarrow> ty \<in> task_functions s \<and> out = Returned"
    using run_body_success [of out ty s] by simp
  with rb assms(2) show ?thesis
    by (auto simp: execute_task_def select_task_running [OF assms(1)] Let_def mark_running_def
        update_task_twice)
qed

lemma select_task_unique:
  assumes "distinct (map row_id rows)" and "select_task i rows = Some r0"
    and "r \<in> set rows" and "row_id r = i"
  shows "r = r0"
proof -
  from assms(2) have "r0 \<in> set rows" and "row_id r0 = i"
    by (simp_all add: select_task_Some)
  moreover from assms(1) have "inj_on row_id (set rows)"
    by (simp add: distinct_map)
  ultimately show ?thesis
    using assms(3,4) by (auto dest: inj_onD)
qed

text \<open>What every run does to the table, in one rule.\<close>

lemma execute_task_cases:
  obtains (absent) "select_task task_id (tasks s) = None"
      and "execute_task started completed out task_id ty s = (Inl TypeError, s)"
  | (present) r0 f entry where "select_task task_id (tasks s) = Some r0"
      and "execute_task started completed out task_id ty s =
             (Inr (), s\<lparr>tasks := update_task task_id f (tasks s),
                         task_logs := task_logs s @ [entry]\<rparr>)"
      and "\<And>r. row_id (f r) = row_id r"
      and "\<And>r. max_retries (f r) = max_retries r"
      and "\<And>r. status (f r) \<in> {''completed'', ''pending'', ''failed''}"
      and "\<And>r. retry_count (f r) = retry_count r \<or>
             (retry_count r0 < max_retries r0 \<and> retry_count (f r) = retry_count r0 + 1)"
proof (cases "select_task task_id (tasks s)")
  case None
  then show ?thesis
    using absent execute_task_absent by blast
next
  case (Some r0)
  show ?thesis
  proof (cases "\<not> (ty \<in> task_functions s \<and> out = Returned) \<and> retry_count r0 < max_retries r0")
    case True
    then have "\<not> (ty \<in> task_functions s \<and> out = Returned)" and "retry_count r0 < max_retries r0"
      by simp_all
    note ex = execute_task_retry [OF Some this, of started completed]
    show ?thesis
      by (rule present [OF Some ex]) (simp_all add: \<open>retry_count r0 < max_retries r0\<close>)
  next
    case False
    then have "(ty \<in> task_functions s \<and> out = Returned) \<or> \<not> retry_count r0 < max_retries r0"
      by blast
    note ex = execute_task_final [OF Some this, of started completed]
    show ?thesis
      by (rule present [OF Some ex]) simp_all
  qed
qed

lemma execute_task_jobs: "jobs (snd (execute_task started completed out task_id ty s)) = jobs s"
  by (rule execute_task_cases [of task_id s started completed out ty]) simp_all

lemma execute_task_row_ids:
  "map row_id (tasks (snd (execute_task started completed out task_id ty s))) = map row_id (tasks s)"
  by (rule execute_task_cases [of task_id s started completed out ty])
     (simp_all add: row_ids_update_task)

lemma execute_task_retries:
  assumes "distinct (map row_id (tasks s))" and "retries_in_range s"
  shows "retries_in_range (snd (execute_task started completed out task_id ty s))"
proof (rule execute_task_cases [of task_id s started completed out ty])
  assume "execute_task started completed out task_id ty s = (Inl TypeError, s)"
  with assms(2) show ?thesis by simp
next
  fix r0 f entry
  assume sel: "select_task task_id (tasks s) = Some r0"
    and ex: "execute_task started completed out task_id ty s =
       (Inr (), s\<lparr>tasks := update_task task_id f (tasks s), task_logs := task_logs s @ [entry]\<rparr>)"
    and mr: "\<And>r. max_retries (f r) = max_retries r"
    and rc: "\<And>r. retry_count (f r) = retry_count r \<or>
             (retry_count r0 < max_retries r0 \<and> retry_count (f r) = retry_count r0 + 1)"
  have "0 \<le> retry_count r' \<and> retry_count r' \<le> max_retries r'"
    if "r' \<in> set (update_task task_id f (tasks s))" for r'
  proof -
    from that obtain r where r: "r \<in> set (tasks s)"
      and r': "r' = (if row_id r = task_id then f r else r)"
      using set_update_task by blast
    from assms(2) r have ok: "0 \<le> retry_count r \<and> retry_count r \<le> max_retries r"
      by (simp add: retries_in_range_def list_all_iff)
    show ?thesis
    proof (cases "row_id r = task_id")
      case True
      from assms(1) sel r True have "r = r0" by (rule select_task_unique)
      with True r' ok rc [of r] mr [of r] show ?thesis by auto
    next
      case False
      with r' ok show ?thesis by simp
    qed
  qed
  with ex show ?thesis
    by (simp add: retries_in_range_def list_all_iff)
qed

lemma add_task_tasks:
  "tasks (snd (add_task lib now ty pr sch rc mr manual s)) =
     (if pr \<in> set TASK_PRIORITIES then
        tasks s @
          [\<lparr>row_id = next_rowid (map row_id (tasks s)), task_type = ty, priority = pr,
            schedule = sch, retry_count = rc, max_retries = mr, status = ''pending'',
            last_run_at = None, next_run_at = None, created_at = now, updated_at = now\<rparr>]
      else tasks s)"
  by (auto simp: add_task_def Let_def schedule_task_def add_job_def
      split: option.splits prod.splits sum.splits)

lemma trigger_task_cases:
  "snd (trigger_task started completed out task_id s) = s \<or>
   (\<exists>r. select_task task_id (tasks s) = Some r \<and> status r \<notin> {''cancelled'', ''completed''} \<and>
      snd (trigger_task started completed out task_id s) =
        snd (execute_task started completed out task_id (task_type r) s))"
  by (auto simp: trigger_task_def split: option.splits prod.splits sum.splits)

lemma cancel_task_tasks:
  "tasks (snd (cancel_task now task_id s)) =
     update_task task_id (\<lambda>r. r\<lparr>status := ''cancelled'', updated_at := now\<rparr>) (tasks s)"
  by (simp add: cancel_task_def remove_job_def Let_def)

lemma fire_cases:
  "fire started completed out i s = s \<or>
   (\<exists>j \<in> set (jobs s). job_id j = i \<and>
      fire started completed out i s =
        snd (execute_task started completed out (fst (job_args j)) (snd (job_args j)) s))"
  by (auto simp: fire_def find_Some_iff split: option.splits)

lemma do_call_row_ids_distinct:
  assumes "distinct (map row_id (tasks s))"
  shows "distinct (map row_id (tasks (do_call lib c s)))"
proof (cases c)
  case (Register ty)
  with assms show ?thesis by (simp add: register_task_function_def)
next
  case (Add now ty pr sch rc mr manual)
  with assms next_rowid_fresh [of "map row_id (tasks s)"] show ?thesis
    by (simp add: add_task_tasks)
next
  case (Trigger started completed out i)
  with assms trigger_task_cases [of started completed out i s] show ?thesis
    by (auto simp: execute_task_row_ids)
next
  case (Cancel now i)
  with assms show ?thesis
    by (simp add: cancel_task_tasks row_ids_update_task)
next
  case (Fire started completed out i)
  with assms fire_cases [of started completed out i s] show ?thesis
    by (auto simp: execute_task_row_ids)
qed

lemma do_call_retries:
  assumes "distinct (map row_id (tasks s))" and "retries_in_range s"
    and "retries_given_in_range c"
  shows "retries_in_range (do_call lib c s)"
proof (cases c)
  case (Register ty)
  with assms(2) show ?thesis
    by (simp add: register_task_function_def retries_in_range_def)
next
  case (Add now ty pr sch rc mr manual)
  with assms(2,3) show ?thesis
    by (simp add: retries_in_range_def add_task_tasks)
next
  case (Trigger started completed out i)
  with assms(1,2) trigger_task_cases [of started completed out i s] show ?thesis
    by (auto simp: execute_task_retries)
next
  case (Cancel now i)
  with assms(2) show ?thesis
    by (auto simp: retries_in_range_def list_all_iff cancel_task_tasks update_task_def)
next
  case (Fire started completed out i)
  with assms(1,2) fire_cases [of started completed out i s] show ?thesis
    by (auto simp: execute_task_retries)
qed

subsection \<open>The range of retry_count (C4)\<close>

text \<open>
  C4 as stated: after any sequence of public operations, with any arguments that
  \<open>add_task\<close> accepts, every row has \<open>0 \<le> retry_count \<le> max_retries\<close>. \<open>add_task\<close>
  checks the priority only and stores both numbers as given: a call with
  \<open>retry_count=4, max_retries=3\<close> on the new database leaves a row outside the range.
\<close>

theorem retries_out_of_range_counterexample:
  "\<not> retries_in_range
       (run_calls plain_triggers [Add clock0 ''job'' ''normal'' None 4 3 False] init_scheduler)"
  by (simp add: retries_in_range_def ops_defs)

text \<open>
  C4, amended. From a table in which \<open>id\<close> is a key and every row is in the range
  (the new database is one), every sequence of registrations, \<open>add_task\<close> calls that
  are given \<open>0 \<le> retry_count \<le> max_retries\<close>, \<open>trigger_task\<close> calls, \<open>cancel_task\<close>
  calls and firings leads to a state in which every row has
  \<open>0 \<le> retry_count \<le> max_retries\<close>.
\<close>

theorem retries_stay_in_range:
  assumes "distinct (map row_id (tasks s))" and "retries_in_range s"
    and "list_all retries_given_in_range cs"
  shows "retries_in_range (run_calls lib cs s)"
  using assms
proof (induction cs arbitrary: s)
  case Nil
  then show ?case by (simp add: run_calls_def)
next
  case (Cons c cs)
  from Cons.prems have "distinct (map row_id (tasks (do_call lib c s)))"
    and "retries_in_range (do_call lib c s)"
    by (simp_all add: do_call_row_ids_distinct do_call_retries)
  with Cons.IH [of "do_call lib c s"] Cons.prems(3) show ?case
    by (simp add: run_calls_def)
qed

theorem retries_stay_in_range_witness:
  "distinct (map row_id (tasks init_scheduler)) \<and> retries_in_range init_scheduler \<and>
   list_all retries_given_in_range
     [Register ''job'', Add clock0 ''job'' ''normal'' None 0 3 False,
      Trigger clock1 clock2 (Raised ''boom'') 1] \<and>
   retries_in_range
     (run_calls plain_triggers
        [Register ''job'', Add clock0 ''job'' ''normal'' None 0 3 False,
         Trigger clock1 clock2 (Raised ''boom'') 1] init_scheduler)"
proof -
  have d: "distinct (map row_id (tasks init_scheduler))"
    by (simp add: init_scheduler_def)
  have r: "retries_in_range init_scheduler"
    by (simp add: retries_in_range_def init_scheduler_def)
  have c: "list_all retries_given_in_range
     [Register ''job'', Add clock0 ''job'' ''normal'' None 0 3 False,
      Trigger clock1 clock2 (Raised ''boom'') 1]"
    by simp
  from retries_stay_in_range [OF d r c, of plain_triggers] show ?thesis
    using d r c by blast
qed

subsection \<open>The job store along a sequence of calls\<close>

lemma job_store_ok_iff:
  "job_store_ok s \<longleftrightarrow>
     distinct (map job_id (jobs s)) \<and>
     (\<forall>j \<in> set (jobs s). fst (job_args j) = job_id j \<and>
        (\<forall>r \<in> set (tasks s). row_id r = job_id j \<longrightarrow> status r \<noteq> ''cancelled''))"
  by (simp add: job_store_ok_def list_all_iff)

lemma job_store_ok_empty: "jobs s = [] \<Longrightarrow> job_store_ok s"
  by (simp add: job_store_ok_def)

lemma remove_first_absent: "i \<notin> set (map job_id js) \<Longrightarrow> remove_first i js = js"
  by (induction js) auto

lemma set_remove_first: "set (remove_first i js) \<subseteq> set js"
  by (induction js) auto

lemma distinct_remove_first:
  "distinct (map job_id js) \<Longrightarrow>
     distinct (map job_id (remove_first i js)) \<and> i \<notin> set (map job_id (remove_first i js))"
proof (induction js)
  case Nil
  then show ?case by simp
next
  case (Cons j js)
  then show ?case
    using set_remove_first [of i js] by auto
qed

lemma cancel_task_jobs: "jobs (snd (cancel_task now i s)) = remove_first i (jobs s)"
  by (simp add: cancel_task_def remove_job_def Let_def remove_first_absent)

lemma add_task_jobs_cases:
  "jobs (snd (add_task lib now ty pr sch rc mr manual s)) = jobs s \<or>
   (next_rowid (map row_id (tasks s)) \<notin> set (map job_id (jobs s)) \<and>
    (\<exists>trg. jobs (snd (add_task lib now ty pr sch rc mr manual s)) =
       jobs s @ [\<lparr>job_id = next_rowid (map row_id (tasks s)), job_trigger = trg,
                  job_args = (next_rowid (map row_id (tasks s)), ty)\<rparr>]))"
  by (auto simp: add_task_def Let_def schedule_task_def add_job_def
      split: option.splits prod.splits sum.splits if_splits)

lemma execute_task_keeps_uncancelled:
  assumes "r' \<in> set (tasks (snd (execute_task started completed out task_id ty s)))"
    and "status r' = ''cancelled''"
  shows "r' \<in> set (tasks s)"
proof (rule execute_task_cases [of task_id s started completed out ty])
  assume "execute_task started completed out task_id ty s = (Inl TypeError, s)"
  with assms(1) show ?thesis by simp
next
  fix r0 f entry
  assume ex: "execute_task started completed out task_id ty s =
       (Inr (), s\<lparr>tasks := update_task task_id f (tasks s), task_logs := task_logs s @ [entry]\<rparr>)"
    and st: "\<And>r. status (f r) \<in> {''completed'', ''pending'', ''failed''}"
  from assms(1) ex obtain r where r: "r \<in> set (tasks s)"
    and r': "r' = (if row_id r = task_id then f r else r)"
    using set_update_task [of r' task_id f "tasks s"] by auto
  show ?thesis
  proof (cases "row_id r = task_id")
    case True
    with r' assms(2) st [of r] show ?thesis by auto
  next
    case False
    with r r' show ?thesis by simp
  qed
qed

lemma execute_task_job_store_ok:
  assumes "job_store_ok s"
  shows "job_store_ok (snd (execute_task started completed out task_id ty s))"
  using assms execute_task_keeps_uncancelled [of _ started completed out task_id ty s]
  by (auto simp: job_store_ok_iff execute_task_jobs)

lemma do_call_job_store_ok:
  assumes "job_store_ok s"
  shows "job_store_ok (do_call lib c s)"
proof (cases c)
  case (Register ty)
  with assms show ?thesis
    by (simp add: register_task_function_def job_store_ok_def)
next
  case (Add now ty pr sch rc mr manual)
  let ?i = "next_rowid (map row_id (tasks s))"
  have fresh: "row_id r \<noteq> ?i" if "r \<in> set (tasks s)" for r
  proof
    assume "row_id r = ?i"
    with that have "?i \<in> set (map row_id (tasks s))" by force
    then show False using next_rowid_fresh by blast
  qed
  from add_task_jobs_cases [of lib now ty pr sch rc mr manual s]
  show ?thesis
  proof
    assume "jobs (snd (add_task lib now ty pr sch rc mr manual s)) = jobs s"
    with assms Add show ?thesis
      by (auto simp: job_store_ok_iff add_task_tasks)
  next
    assume "?i \<notin> set (map job_id (jobs s)) \<and>
      (\<exists>trg. jobs (snd (add_task lib now ty pr sch rc mr manual s)) =
         jobs s @ [\<lparr>job_id = ?i, job_trigger = trg, job_args = (?i, ty)\<rparr>])"
    with assms Add fresh show ?thesis
      by (auto simp: job_store_ok_iff add_task_tasks)
  qed
next
  case (Trigger started completed out i)
  with assms trigger_task_cases [of started completed out i s] show ?thesis
    by (auto simp: execute_task_job_store_ok)
next
  case (Cancel now i)
  have "job_id j \<noteq> i" if "j \<in> set (remove_first i (jobs s))" for j
    using that assms distinct_remove_first [of "jobs s" i]
    by (auto simp: job_store_ok_iff)
  with assms Cancel set_remove_first [of i "jobs s"] distinct_remove_first [of "jobs s" i]
  show ?thesis
    by (auto simp: job_store_ok_iff cancel_task_jobs cancel_task_tasks update_task_def)
next
  case (Fire started completed out i)
  with assms fire_cases [of started completed out i s] show ?thesis
    by (auto simp: execute_task_job_store_ok)
qed

lemma run_calls_job_store_ok: "job_store_ok s \<Longrightarrow> job_store_ok (run_calls lib cs s)"
proof (induction cs arbitrary: s)
  case Nil
  then show ?case by (simp add: run_calls_def)
next
  case (Cons c cs)
  from Cons.IH [of "do_call lib c s"] Cons.prems show ?case
    by (simp add: run_calls_def do_call_job_store_ok)
qed

text \<open>The status that a run leaves on the row it was read from.\<close>

lemma execute_task_status:
  assumes "select_task i (tasks s) = Some r"
  shows "\<exists>r'. select_task i (tasks (snd (execute_task started completed out task_id ty s))) = Some r' \<and>
     (if i = task_id then status r' \<in> {''completed'', ''pending'', ''failed''}
      else r' = r)"
proof (rule execute_task_cases [of task_id s started completed out ty])
  assume "execute_task started completed out task_id ty s = (Inl TypeError, s)"
    and "select_task task_id (tasks s) = None"
  with assms show ?thesis by auto
next
  fix r0 f entry
  assume ex: "execute_task started completed out task_id ty s =
       (Inr (), s\<lparr>tasks := update_task task_id f (tasks s), task_logs := task_logs s @ [entry]\<rparr>)"
    and rid: "\<And>r. row_id (f r) = row_id r"
    and st: "\<And>r. status (f r) \<in> {''completed'', ''pending'', ''failed''}"
  from assms have "row_id r = i" by (simp add: select_task_Some)
  with ex assms st [of r] show ?thesis
    by (simp add: select_task_update [of f, OF rid])
qed

subsection \<open>The status of a task (C3)\<close>

lemmas parse_defs =
  parse_schedule_def split_def is_space_def startswith_def py_int_def py_unsigned_def
  is_digit_def digit_value_def plain_triggers_def


lemma run_body_start_run: "run_body out ty (start_run started task_id s) = run_body out ty s"
  by (simp add: run_body_def start_run_def)

lemma execute_task_phases:
  "execute_task started completed out task_id ty s =
     (case finish_run started completed out task_id ty (start_run started task_id s) of
        (Inl e, s1) \<Rightarrow> (Inl e, s)
      | (Inr u, s') \<Rightarrow> (Inr u, s'))"
proof -
  obtain success msg where rb: "run_body out ty s = (success, msg)"
    by (cases "run_body out ty s")
  then have rb1: "run_body out ty (s\<lparr>tasks := mark_running started task_id (tasks s)\<rparr>) =
      (success, msg)"
    by (simp add: run_body_def)
  show ?thesis
    by (simp add: execute_task_def finish_run_def start_run_def rb rb1 Let_def
        split: option.splits)
qed

lemma start_run_status:
  assumes "select_task i (tasks s) = Some r"
  shows "map_option status (get_task_status i (start_run started i s)) = Some ''running''"
  using assms select_task_Some [OF assms]
  by (simp add: get_task_status_def start_run_def select_task_mark_running)

lemma execute_task_finish:
  assumes "select_task i (tasks s) = Some r"
  shows "snd (execute_task started completed out i ty s) =
           snd (finish_run started completed out i ty (start_run started i s))"
  using execute_task_ok [OF assms, of started completed out ty]
  by (simp add: execute_task_phases split: prod.splits sum.splits)

lemma execute_task_row_status:
  assumes "select_task i (tasks s) = Some r"
  shows "map_option status (select_task i (tasks (snd (execute_task started completed out i ty s)))) =
     Some (if ty \<in> task_functions s \<and> out = Returned then ''completed''
           else if retry_count r < max_retries r then ''pending'' else ''failed'')"
proof (cases "\<not> (ty \<in> task_functions s \<and> out = Returned) \<and> retry_count r < max_retries r")
  case True
  then have a: "\<not> (ty \<in> task_functions s \<and> out = Returned)" and b: "retry_count r < max_retries r"
    by simp_all
  show ?thesis
    using assms select_task_Some [OF assms] a b
    by (simp add: execute_task_retry [OF assms a b] select_task_update)
next
  case False
  then have c: "(ty \<in> task_functions s \<and> out = Returned) \<or> \<not> retry_count r < max_retries r"
    by blast
  show ?thesis
    using assms select_task_Some [OF assms] c
    by (auto simp: execute_task_final [OF assms c] select_task_update)
qed

lemma execute_task_other_row:
  assumes "select_task i (tasks s) = Some r" and "i \<noteq> k"
  shows "select_task i (tasks (snd (execute_task started completed out k ty s))) = Some r"
  using execute_task_status [OF assms(1), of started completed out k ty] assms(2) by auto

lemma trigger_task_snd:
  "snd (trigger_task started completed out k s) =
     (case select_task k (tasks s) of
        None \<Rightarrow> s
      | Some t \<Rightarrow>
          if status t = ''cancelled'' \<or> status t = ''completed'' then s
          else snd (execute_task started completed out k (task_type t) s))"
  by (auto simp: trigger_task_def split: option.splits prod.splits sum.splits)

lemma status_of_row:
  "map_option status (select_task i rows) = Some x \<Longrightarrow>
     \<exists>r'. select_task i rows = Some r' \<and> status r' = x"
  by (cases "select_task i rows") simp_all

lemma one_cancelled_row:
  "get_task_status 1 one_cancelled =
     Some \<lparr>row_id = 1, task_type = ''job'', priority = ''normal'',
           schedule = Some ''interval 5'', retry_count = 0, max_retries = 3,
           status = ''cancelled'', last_run_at = None, next_run_at = None,
           created_at = clock0, updated_at = clock1\<rparr>"
  by (simp add: one_cancelled_def ops_defs parse_schedule_def split_def is_space_def
      startswith_def py_int_def py_unsigned_def is_digit_def digit_value_def plain_triggers_def)

lemma one_scheduled_row:
  "get_task_status 1 one_scheduled =
     Some \<lparr>row_id = 1, task_type = ''job'', priority = ''normal'',
           schedule = Some ''interval 5'', retry_count = 0, max_retries = 3,
           status = ''pending'', last_run_at = None, next_run_at = None,
           created_at = clock0, updated_at = clock0\<rparr>"
  by (simp add: one_scheduled_def ops_defs parse_defs)

lemma one_scheduled_job:
  "find (\<lambda>j. job_id j = 1) (jobs one_scheduled) =
     Some \<lparr>job_id = 1, job_trigger = IntervalTrigger 5, job_args = (1, ''job'')\<rparr>"
  by (simp add: one_scheduled_def ops_defs parse_defs)

lemma one_scheduled_registered: "task_functions one_scheduled = {''job''}"
  by (simp add: one_scheduled_def ops_defs parse_defs)

text \<open>
  C3 as stated: once a task is completed, failed or cancelled, no later transition
  (a firing, the retry handling, \<open>cancel_task\<close>) changes its status. \<open>cancel_task\<close>
  updates the row whatever its status is: the completed task becomes cancelled. The
  job of a task stays in the store after a run, and \<open>_execute_task\<close> does not read the
  status: a firing runs the completed task again, to pending when the body raises, and
  runs the failed task again, to completed when the body returns.
\<close>

theorem terminal_status_left_counterexample:
  "map_option status (get_task_status 1 one_completed) = Some ''completed'' \<and>
   map_option status (get_task_status 1 (do_call plain_triggers (Cancel clock3 1) one_completed))
     = Some ''cancelled'' \<and>
   map_option status (get_task_status 1 scheduled_completed) = Some ''completed'' \<and>
   map_option status
     (get_task_status 1
        (do_call plain_triggers (Fire clock3 clock3 (Raised ''boom'') 1) scheduled_completed))
     = Some ''pending'' \<and>
   map_option status (get_task_status 1 scheduled_failed) = Some ''failed'' \<and>
   map_option status
     (get_task_status 1 (do_call plain_triggers (Fire clock3 clock3 Returned 1) scheduled_failed))
     = Some ''completed''"
  by (simp add: one_completed_def one_pending_def scheduled_completed_def one_scheduled_def
      scheduled_failed_def ops_defs parse_defs)

text \<open>
  C3, amended. In every state reached by a sequence of calls from a state with an
  empty job store (the state after \<open>__init__\<close>, on any table), the status of an existing
  task after one further call is exactly this. After a registration or an \<open>add_task\<close>
  it is unchanged. After \<open>cancel_task\<close> of the task it is cancelled, whatever it was,
  and after \<open>cancel_task\<close> of another task it is unchanged. After \<open>trigger_task\<close> of
  the task, when it was neither cancelled nor completed, and after a firing of the job
  of the task, which exists only when the task is not cancelled, the task has been run:
  the first UPDATE leaves the row running, the call ends in the state that the rest of
  \<open>_execute_task\<close> makes of that one, and the status is completed when the body is
  registered and returns, pending when it fails with \<open>retry_count < max_retries\<close>, and
  failed otherwise. After any other \<open>trigger_task\<close> or firing it is unchanged. So a
  cancelled task stays cancelled, and completed and failed are left again.
\<close>

theorem status_transitions:
  assumes "jobs s0 = []" and "s = run_calls lib cs s0" and "get_task_status i s = Some r"
  shows "\<exists>r'. get_task_status i (do_call lib c s) = Some r' \<and>
     (status r = ''cancelled'' \<longrightarrow> status r' = ''cancelled'') \<and>
     (case c of
        Register ty \<Rightarrow> status r' = status r
      | Add now ty pr sch rc mr manual \<Rightarrow> status r' = status r
      | Cancel now k \<Rightarrow> status r' = (if k = i then ''cancelled'' else status r)
      | Trigger started completed out k \<Rightarrow>
          if k = i \<and> status r \<noteq> ''cancelled'' \<and> status r \<noteq> ''completed'' then
            map_option status (get_task_status i (start_run started i s)) = Some ''running'' \<and>
            do_call lib c s =
              snd (finish_run started completed out i (task_type r) (start_run started i s)) \<and>
            status r' =
              (if task_type r \<in> task_functions s \<and> out = Returned then ''completed''
               else if retry_count r < max_retries r then ''pending'' else ''failed'')
          else status r' = status r
      | Fire started completed out k \<Rightarrow>
          (case find (\<lambda>j. job_id j = k) (jobs s) of
             None \<Rightarrow> status r' = status r
           | Some j \<Rightarrow>
               if k = i then
                 status r \<noteq> ''cancelled'' \<and>
                 map_option status (get_task_status i (start_run started i s)) = Some ''running'' \<and>
                 do_call lib c s =
                   snd (finish_run started completed out i (snd (job_args j))
                          (start_run started i s)) \<and>
                 status r' =
                   (if snd (job_args j) \<in> task_functions s \<and> out = Returned then ''completed''
                    else if retry_count r < max_retries r then ''pending'' else ''failed'')
               else status r' = status r))"
proof -
  from assms(1,2) have ok: "job_store_ok s"
    by (simp add: job_store_ok_empty run_calls_job_store_ok)
  from assms(3) have sel: "select_task i (tasks s) = Some r"
    by (simp add: get_task_status_def)
  then have mem: "r \<in> set (tasks s)" and rid: "row_id r = i"
    by (simp_all add: select_task_Some)
  note running = start_run_status [OF sel]
  show ?thesis
  proof (cases c)
    case (Register ty)
    with sel show ?thesis
      by (simp add: register_task_function_def get_task_status_def)
  next
    case (Add now ty pr sch rc mr manual)
    with sel show ?thesis
      by (simp add: get_task_status_def add_task_tasks select_task_append)
  next
    case (Cancel now k)
    with sel rid show ?thesis
      by (simp add: get_task_status_def cancel_task_tasks select_task_update)
  next
    case (Trigger started completed out k)
    show ?thesis
    proof (cases "k = i")
      case True
      show ?thesis
      proof (cases "status r = ''cancelled'' \<or> status r = ''completed''")
        case blocked: True
        with Trigger \<open>k = i\<close> sel show ?thesis
          by (auto simp: get_task_status_def trigger_task_snd)
      next
        case free: False
        let ?s' = "snd (execute_task started completed out i (task_type r) s)"
        from free \<open>k = i\<close> sel have run: "do_call lib c s = ?s'"
          by (simp add: Trigger trigger_task_snd)
        from status_of_row [OF execute_task_row_status [OF sel, of started completed out "task_type r"]]
        obtain r' where r': "select_task i (tasks ?s') = Some r'"
          and st: "status r' =
            (if task_type r \<in> task_functions s \<and> out = Returned then ''completed''
             else if retry_count r < max_retries r then ''pending'' else ''failed'')"
          by blast
        from run have fin: "do_call lib c s =
            snd (finish_run started completed out i (task_type r) (start_run started i s))"
          by (simp add: execute_task_finish [OF sel])
        from r' run have "get_task_status i (do_call lib c s) = Some r'"
          by (simp add: get_task_status_def)
        with st fin free running [of started] \<open>k = i\<close> show ?thesis
          by (simp add: Trigger)
      qed
    next
      case False
      then have "i \<noteq> k" by simp
      note other = execute_task_other_row [OF sel this]
      from sel other False Trigger show ?thesis
        by (auto simp: get_task_status_def trigger_task_snd split: option.splits)
    qed
  next
    case (Fire started completed out k)
    show ?thesis
    proof (cases "find (\<lambda>j. job_id j = k) (jobs s)")
      case None
      with Fire sel show ?thesis
        by (simp add: get_task_status_def fire_def)
    next
      case (Some j)
      then have j: "j \<in> set (jobs s)" and jk: "job_id j = k"
        by (auto simp: find_Some_iff)
      with ok have arg: "fst (job_args j) = k"
        and live: "\<And>x. x \<in> set (tasks s) \<Longrightarrow> row_id x = k \<Longrightarrow> status x \<noteq> ''cancelled''"
        by (auto simp: job_store_ok_iff)
      let ?ty = "snd (job_args j)"
      let ?s' = "snd (execute_task started completed out k ?ty s)"
      from Some arg have run: "do_call lib c s = ?s'"
        by (simp add: Fire fire_def)
      show ?thesis
      proof (cases "k = i")
        case True
        with live [OF mem] rid have alive: "status r \<noteq> ''cancelled''" by simp
        from status_of_row [OF execute_task_row_status [OF sel, of started completed out ?ty]]
        obtain r' where r': "select_task i (tasks (snd (execute_task started completed out i ?ty s))) = Some r'"
          and st: "status r' =
            (if ?ty \<in> task_functions s \<and> out = Returned then ''completed''
             else if retry_count r < max_retries r then ''pending'' else ''failed'')"
          by blast
        from run True have fin: "do_call lib c s =
            snd (finish_run started completed out i ?ty (start_run started i s))"
          by (simp add: execute_task_finish [OF sel])
        from r' run True have "get_task_status i (do_call lib c s) = Some r'"
          by (simp add: get_task_status_def)
        with st fin alive running [of started] True Some show ?thesis
          by (simp add: Fire)
      next
        case False
        then have "i \<noteq> k" by simp
        from execute_task_other_row [OF sel this, of started completed out ?ty] run
        have "get_task_status i (do_call lib c s) = Some r"
          by (simp add: get_task_status_def)
        with False Some show ?thesis
          by (simp add: Fire)
      qed
    qed
  qed
qed

theorem status_transitions_witness:
  "jobs init_scheduler = [] \<and> get_task_status 1 one_scheduled \<noteq> None \<and>
   map_option status (get_task_status 1 (start_run clock1 1 one_scheduled)) = Some ''running'' \<and>
   (\<exists>r'. get_task_status 1 (do_call plain_triggers (Fire clock1 clock2 Returned 1) one_scheduled)
            = Some r' \<and> status r' = ''completed'') \<and>
   get_task_status 1 one_cancelled \<noteq> None \<and>
   (\<exists>r'. get_task_status 1 (do_call plain_triggers (Trigger clock2 clock3 Returned 1) one_cancelled)
            = Some r' \<and> status r' = ''cancelled'')"
proof -
  have e: "jobs init_scheduler = []"
    by (simp add: init_scheduler_def)
  from status_transitions [OF e one_scheduled_def one_scheduled_row,
      of "Fire clock1 clock2 Returned 1"]
    status_transitions [OF e one_cancelled_def one_cancelled_row,
      of "Trigger clock2 clock3 Returned 1"]
  show ?thesis using e
    by (auto simp: one_scheduled_row one_cancelled_row one_scheduled_job one_scheduled_registered)
qed

end
